theory Spec2Isabelle
  imports Main
begin

section \<open>Authorship ranges of the editor\<close>

text \<open>
  The development embeds
  \<^verbatim>\<open>frontend/src/components/editor-page/editor-pane/codemirror-extensions/authorship-ranges/authorship-layers-extensions.ts\<close>:
  the state field \<^verbatim>\<open>authorshipsStateField\<close>, whose value is the set of authorship
  decorations, and the effect \<^verbatim>\<open>authorshipsUpdateEffect\<close>.

  Positions are JavaScript numbers that hold document offsets; they are modelled as
  \<^typ>\<open>int\<close>. User ids are strings. Exceptions are values of \<open>error + 'a\<close>
  (\<open>Inl\<close> the exception). The calls of \<^verbatim>\<open>logger.debug\<close> have no effect on the state
  and are left out.
\<close>

subsection \<open>Data\<close>

text \<open>\<^verbatim>\<open>interface AuthorshipUpdate { from: number; to: number; userId: string }\<close>\<close>

record authorship_update =
  ufrom :: int
  uto :: int
  userId :: string

text \<open>
  The spec object of a mark decoration, as far as the file reads and writes it
  (\<^verbatim>\<open>type MarkDecoration = { attributes?: Record<string, string> }\<close> and the
  \<^verbatim>\<open>class\<close> given in \<^verbatim>\<open>createMark\<close>). The optional record of attributes is an
  optional association list.
\<close>

record mark_spec =
  cls :: string
  attributes :: "(string \<times> string) list option"

text \<open>\<^verbatim>\<open>Range<Decoration>\<close>: a decoration value with its span.\<close>

record deco_range =
  rfrom :: int
  rto :: int
  rvalue :: mark_spec

text \<open>
  \<^verbatim>\<open>DecorationSet\<close>: the ranges in the order in which the set enumerates them
  (by start, then by end).
\<close>

type_synonym decoration_set = "deco_range list"

text \<open>
  The two exceptions the editor library raises on the paths of this file:
  \<^verbatim>\<open>RangeError("Mark decorations may not be empty")\<close> and
  \<^verbatim>\<open>Error("Ranges must be added sorted by `from` position and `startSide`")\<close>.
\<close>

datatype error = RangeError | UnsortedRanges

text \<open>
  A change description is used only through \<^verbatim>\<open>mapPos(pos, assoc)\<close>; the remapping
  itself is a parameter. \<open>EmptyChanges\<close> is a transaction without document changes
  (\<^verbatim>\<open>changes.empty\<close>).
\<close>

datatype change_desc = EmptyChanges | Changes "int \<Rightarrow> int \<Rightarrow> int"

fun mapPos :: "change_desc \<Rightarrow> int \<Rightarrow> int \<Rightarrow> int" where
  "mapPos EmptyChanges pos assoc = pos"
| "mapPos (Changes f) pos assoc = f pos assoc"

text \<open>
  The effects of a transaction: those of type \<^verbatim>\<open>authorshipsUpdateEffect\<close> and all others
  (\<^verbatim>\<open>effect.is(authorshipsUpdateEffect)\<close> tells them apart).
\<close>

datatype state_effect = AuthorshipsUpdateEffect authorship_update | OtherEffect

record transaction =
  changes :: change_desc
  effects :: "state_effect list"

subsection \<open>The editor library, as far as the file calls it\<close>

text \<open>
  The file builds on the editor library (\<^verbatim>\<open>@codemirror/state\<close> and
  \<^verbatim>\<open>@codemirror/view\<close>), whose sources are not part of the repository. This
  subsection states what the calls of the file do there; everything after it is the file.

  \<^verbatim>\<open>Decoration.mark(spec).range(from, to)\<close>: a mark decoration refuses an empty or
  inverted span (\<^verbatim>\<open>if (from >= to) throw new RangeError("Mark decorations may not be empty")\<close>).
\<close>

definition mark_range :: "mark_spec \<Rightarrow> int \<Rightarrow> int \<Rightarrow> error + deco_range" where
  "mark_range spec f t =
     (if f \<ge> t then Inl RangeError else Inr \<lparr>rfrom = f, rto = t, rvalue = spec\<rparr>)"

text \<open>
  The sides with which the library maps a mark that includes neither of its ends: a
  positive one for its start, which stays after text inserted there, and a negative one for
  its end, which stays before. The remapping is a parameter, so only their being passed
  matters here.
\<close>

definition markStartSide :: int where
  "markStartSide = 500000000"

definition markEndSide :: int where
  "markEndSide = - 600000000"

text \<open>
  Modelled from the spec: \<^verbatim>\<open>RangeSet.map(changes)\<close> belongs to the editor library,
  which is not part of the repository. The spec: ``every stored interval's start and end are
  passed through the remapping function independently. If remapping causes start >= end for
  an interval (its span was fully deleted), that interval is removed rather than retained as
  a degenerate entry.'' A transaction without changes leaves the set as it is
  (\<^verbatim>\<open>if (changes.empty) return this\<close>).
\<close>

fun chunk_map :: "(int \<Rightarrow> int \<Rightarrow> int) \<Rightarrow> decoration_set \<Rightarrow> decoration_set" where
  "chunk_map f [] = []"
| "chunk_map f (d # ds) =
     (if f (rfrom d) markStartSide \<ge> f (rto d) markEndSide then chunk_map f ds
      else d\<lparr>rfrom := f (rfrom d) markStartSide, rto := f (rto d) markEndSide\<rparr> # chunk_map f ds)"

fun rangeset_map :: "change_desc \<Rightarrow> decoration_set \<Rightarrow> decoration_set" where
  "rangeset_map EmptyChanges rs = rs"
| "rangeset_map (Changes f) rs = chunk_map f rs"

text \<open>
  \<^verbatim>\<open>RangeSet.update({filter, filterFrom, filterTo})\<close>: the callback is asked about every
  range that is not entirely outside \<open>[filterFrom, filterTo]\<close>
  (\<^verbatim>\<open>filterFrom > cur.to || filterTo < cur.from\<close> skips it); a range is dropped when the
  callback answers false. The callback of this file pushes onto an array and may throw, so the
  callback takes and returns a state \<open>'s\<close> and its result is a sum.
\<close>

fun rangeset_filter ::
  "('s \<Rightarrow> deco_range \<Rightarrow> error + (bool \<times> 's)) \<Rightarrow> int \<Rightarrow> int \<Rightarrow> 's \<Rightarrow> decoration_set
     \<Rightarrow> error + (decoration_set \<times> 's)" where
  "rangeset_filter cb filterFrom filterTo s [] = Inr ([], s)"
| "rangeset_filter cb filterFrom filterTo s (d # ds) =
     (if filterFrom > rto d \<or> filterTo < rfrom d then
        (case rangeset_filter cb filterFrom filterTo s ds of
           Inl e \<Rightarrow> Inl e
         | Inr (kept, s') \<Rightarrow> Inr (d # kept, s'))
      else
        (case cb s d of
           Inl e \<Rightarrow> Inl e
         | Inr (keep, s1) \<Rightarrow>
             (case rangeset_filter cb filterFrom filterTo s1 ds of
                Inl e \<Rightarrow> Inl e
              | Inr (kept, s') \<Rightarrow> Inr (if keep then d # kept else kept, s'))))"

text \<open>
  \<^verbatim>\<open>RangeSet.update({add})\<close> without \<^verbatim>\<open>sort\<close>: the array must be sorted by start
  (all marks of this file have the same sides), otherwise the library throws. The set
  enumerates its ranges by start and then by end, so a new range comes after the stored
  ranges that start before it, or start with it and end before it. Among ranges of one and
  the same span the library's enumeration follows its internal layers: with one stored
  range of that span the stored range comes first, as here; with two or more stored ranges
  of that span the library may enumerate the new range between them, where this model puts
  it last. The model therefore agrees with the library on which ranges the set holds and
  how often (see \<open>count_list_fold_insert_range\<close> below), and on their order except
  among ranges of equal span.
\<close>

fun insert_range :: "deco_range \<Rightarrow> decoration_set \<Rightarrow> decoration_set" where
  "insert_range a [] = [a]"
| "insert_range a (d # ds) =
     (if rfrom a < rfrom d \<or> (rfrom a = rfrom d \<and> rto a < rto d) then a # d # ds
      else d # insert_range a ds)"

definition rangeset_add :: "deco_range list \<Rightarrow> decoration_set \<Rightarrow> error + decoration_set" where
  "rangeset_add add rs =
     (if sorted (map rfrom add) then Inr (fold insert_range add rs) else Inl UnsortedRanges)"

subsection \<open>The file\<close>

text \<open>\<^verbatim>\<open>createMark\<close>, lines 24 to 32.\<close>

definition authorship_mark :: "string \<Rightarrow> mark_spec" where
  "authorship_mark u =
     \<lparr>cls = ''authorship-highlight'', attributes = Some [(''data-user-id'', u)]\<rparr>"

definition createMark :: "int \<Rightarrow> int \<Rightarrow> string \<Rightarrow> error + deco_range" where
  "createMark f t u = mark_range (authorship_mark u) f t"

text \<open>
  \<^verbatim>\<open>authorshipsUpdateEffect\<close>'s \<^verbatim>\<open>map\<close>, line 38; \<^verbatim>\<open>mapPos\<close> is called with its
  default side \<open>-1\<close>.
\<close>

definition authorshipsUpdateEffect_map :: "authorship_update \<Rightarrow> change_desc \<Rightarrow> authorship_update" where
  "authorshipsUpdateEffect_map v change =
     v\<lparr>ufrom := mapPos change (ufrom v) (- 1), uto := mapPos change (uto v) (- 1)\<rparr>"

text \<open>
  Line 64: \<^verbatim>\<open>(value.spec as MarkDecoration).attributes?.['data-user-id'] ?? ''\<close>.
\<close>

definition decorationUserId :: "mark_spec \<Rightarrow> string" where
  "decorationUserId spec =
     (case attributes spec of
        None \<Rightarrow> []
      | Some attrs \<Rightarrow> (case map_of attrs ''data-user-id'' of None \<Rightarrow> [] | Some u \<Rightarrow> u))"

text \<open>
  The filter callback, lines 63 to 91. The state it threads is the array
  \<^verbatim>\<open>addedDecorations\<close>. \<^verbatim>\<open>decorationUserId !== undefined\<close> always holds, because of
  \<^verbatim>\<open>?? ''\<close>. The three arguments of \<^verbatim>\<open>push\<close> are evaluated from left to right.
\<close>

definition authorship_filter ::
  "authorship_update \<Rightarrow> deco_range list \<Rightarrow> deco_range \<Rightarrow> error + (bool \<times> deco_range list)" where
  "authorship_filter effect addedDecorations d =
     (if rfrom d = uto effect \<or> rto d = ufrom effect then Inr (True, addedDecorations)
      else if decorationUserId (rvalue d) = userId effect then Inr (True, addedDecorations)
      else if rfrom d = ufrom effect \<or> rto d = uto effect then Inr (True, addedDecorations)
      else
        (case createMark (rfrom d) (ufrom effect) (decorationUserId (rvalue d)) of
           Inl e \<Rightarrow> Inl e
         | Inr left \<Rightarrow>
             (case createMark (ufrom effect) (uto effect) (userId effect) of
                Inl e \<Rightarrow> Inl e
              | Inr middle \<Rightarrow>
                  (case createMark (uto effect) (rto d) (decorationUserId (rvalue d)) of
                     Inl e \<Rightarrow> Inl e
                   | Inr right \<Rightarrow> Inr (False, addedDecorations @ [left, middle, right])))))"

text \<open>
  The body of \<^verbatim>\<open>effects.forEach\<close>, lines 56 to 103, for one effect, in its three
  steps: the filtering update (lines 62 to 94), which starts from an empty
  \<^verbatim>\<open>addedDecorations\<close>; the check of lines 96 to 99; the adding update (lines 101 to
  103).
\<close>

definition filter_decorations ::
  "decoration_set \<Rightarrow> authorship_update \<Rightarrow> error + (decoration_set \<times> deco_range list)" where
  "filter_decorations authorshipDecorations effect =
     rangeset_filter (authorship_filter effect) (ufrom effect) (uto effect) []
       authorshipDecorations"

definition added_or_effect :: "authorship_update \<Rightarrow> deco_range list \<Rightarrow> error + deco_range list" where
  "added_or_effect effect addedDecorations =
     (if addedDecorations = [] then
        (case createMark (ufrom effect) (uto effect) (userId effect) of
           Inl e \<Rightarrow> Inl e
         | Inr m \<Rightarrow> Inr [m])
      else Inr addedDecorations)"

definition apply_effect :: "decoration_set \<Rightarrow> authorship_update \<Rightarrow> error + decoration_set" where
  "apply_effect authorshipDecorations effect =
     (case filter_decorations authorshipDecorations effect of
        Inl e \<Rightarrow> Inl e
      | Inr (filtered, addedDecorations) \<Rightarrow>
          (case added_or_effect effect addedDecorations of
             Inl e \<Rightarrow> Inl e
           | Inr added \<Rightarrow> rangeset_add added filtered))"

fun apply_effects :: "decoration_set \<Rightarrow> authorship_update list \<Rightarrow> error + decoration_set" where
  "apply_effects authorshipDecorations [] = Inr authorshipDecorations"
| "apply_effects authorshipDecorations (effect # rest) =
     (case apply_effect authorshipDecorations effect of
        Inl e \<Rightarrow> Inl e
      | Inr next \<Rightarrow> apply_effects next rest)"

text \<open>Line 51: the effects of the transaction that are authorship updates.\<close>

fun authorship_effects :: "state_effect list \<Rightarrow> authorship_update list" where
  "authorship_effects [] = []"
| "authorship_effects (AuthorshipsUpdateEffect v # es) = v # authorship_effects es"
| "authorship_effects (OtherEffect # es) = authorship_effects es"

text \<open>\<^verbatim>\<open>authorshipsStateField\<close>: \<^verbatim>\<open>create\<close> (line 46) and \<^verbatim>\<open>update\<close> (lines 49 to 106).\<close>

definition create :: decoration_set where
  "create = []"

definition update :: "decoration_set \<Rightarrow> transaction \<Rightarrow> error + decoration_set" where
  "update authorshipDecorations tr =
     (if authorship_effects (effects tr) = [] then
        Inr (rangeset_map (changes tr) authorshipDecorations)
      else apply_effects (rangeset_map (changes tr) authorshipDecorations)
             (authorship_effects (effects tr)))"

subsection \<open>The two operations of the tracker\<close>

text \<open>
  A document change is a transaction with changes and no authorship effect; an ownership
  claim is a transaction without changes that carries one authorship effect.
\<close>

definition ApplyDocumentChange :: "(int \<Rightarrow> int \<Rightarrow> int) \<Rightarrow> decoration_set \<Rightarrow> error + decoration_set" where
  "ApplyDocumentChange delta p = update p \<lparr>changes = Changes delta, effects = []\<rparr>"

definition ApplyOwnershipClaim :: "int \<Rightarrow> int \<Rightarrow> string \<Rightarrow> decoration_set \<Rightarrow> error + decoration_set" where
  "ApplyOwnershipClaim f t ownerId p =
     update p \<lparr>changes = EmptyChanges,
               effects = [AuthorshipsUpdateEffect \<lparr>ufrom = f, uto = t, userId = ownerId\<rparr>]\<rparr>"

text \<open>An interval of the partition, as the tracker's users see it: start, end and owner.\<close>

definition interval :: "int \<Rightarrow> int \<Rightarrow> string \<Rightarrow> deco_range" where
  "interval s e ownerId = \<lparr>rfrom = s, rto = e, rvalue = authorship_mark ownerId\<rparr>"

definition owner :: "deco_range \<Rightarrow> string" where
  "owner d = decorationUserId (rvalue d)"

subsection \<open>The branches of the filter callback\<close>

text \<open>
  The conditions of the callback, named: the range is passed to the callback (it is not
  outside the filtered span); it touches the effect's span (line 66); it has the effect's
  user (line 72); it shares a boundary with the effect (line 78). A range reaches the
  splitting branch (lines 85 to 90) when it is passed to the callback and none of the three
  conditions holds; the pieces are the three marks that branch creates.
\<close>

definition in_filter_range :: "authorship_update \<Rightarrow> deco_range \<Rightarrow> bool" where
  "in_filter_range effect d \<longleftrightarrow> \<not> (ufrom effect > rto d \<or> uto effect < rfrom d)"

definition touching :: "authorship_update \<Rightarrow> deco_range \<Rightarrow> bool" where
  "touching effect d \<longleftrightarrow> rfrom d = uto effect \<or> rto d = ufrom effect"

definition inOwnText :: "authorship_update \<Rightarrow> deco_range \<Rightarrow> bool" where
  "inOwnText effect d \<longleftrightarrow> decorationUserId (rvalue d) = userId effect"

definition same_boundary :: "authorship_update \<Rightarrow> deco_range \<Rightarrow> bool" where
  "same_boundary effect d \<longleftrightarrow> rfrom d = ufrom effect \<or> rto d = uto effect"

definition is_split :: "authorship_update \<Rightarrow> deco_range \<Rightarrow> bool" where
  "is_split effect d \<longleftrightarrow>
     in_filter_range effect d \<and> \<not> touching effect d \<and> \<not> inOwnText effect d
       \<and> \<not> same_boundary effect d"

definition split_pieces :: "authorship_update \<Rightarrow> deco_range \<Rightarrow> deco_range list" where
  "split_pieces effect d =
     [interval (rfrom d) (ufrom effect) (owner d),
      interval (ufrom effect) (uto effect) (userId effect),
      interval (uto effect) (rto d) (owner d)]"

text \<open>
  The splitting branch creates its three marks only when the effect's span lies strictly
  inside the range; in every other case one of the three spans is empty or inverted.
\<close>

definition inside :: "authorship_update \<Rightarrow> deco_range \<Rightarrow> bool" where
  "inside effect d \<longleftrightarrow> rfrom d < ufrom effect \<and> ufrom effect < uto effect \<and> uto effect < rto d"

subsection \<open>Properties of partitions\<close>

text \<open>
  Two ranges overlap when their half-open spans share a position. A partition is valid when
  every interval has its start before its end and no two intervals overlap.
\<close>

definition overlaps :: "deco_range \<Rightarrow> deco_range \<Rightarrow> bool" where
  "overlaps a b \<longleftrightarrow> rfrom a < rto b \<and> rfrom b < rto a"

fun pairwise_disjoint :: "decoration_set \<Rightarrow> bool" where
  "pairwise_disjoint [] = True"
| "pairwise_disjoint (d # ds) = (list_all (\<lambda>e. \<not> overlaps d e) ds \<and> pairwise_disjoint ds)"

definition well_formed :: "decoration_set \<Rightarrow> bool" where
  "well_formed p = list_all (\<lambda>d. rfrom d < rto d) p"

definition valid_partition :: "decoration_set \<Rightarrow> bool" where
  "valid_partition p \<longleftrightarrow> well_formed p \<and> pairwise_disjoint p"

text \<open>The owners of the intervals that cover a position, each once.\<close>

definition owners_at :: "decoration_set \<Rightarrow> int \<Rightarrow> string list" where
  "owners_at p x = remdups (map owner (filter (\<lambda>d. rfrom d \<le> x \<and> x < rto d) p))"

text \<open>
  The encoding of an interval: a mark of class \<open>authorship-highlight\<close> whose only attribute
  is \<open>data-user-id\<close>, holding the owner.
\<close>

definition encoded :: "decoration_set \<Rightarrow> bool" where
  "encoded p =
     list_all (\<lambda>d. cls (rvalue d) = ''authorship-highlight''
                 \<and> attributes (rvalue d) = Some [(''data-user-id'', owner d)]) p"

text \<open>
  The values the state field can take: the initial one, and every value an update returns.
  Both operations of the tracker are updates.
\<close>

inductive reachable :: "decoration_set \<Rightarrow> bool" where
  reachable_create: "reachable create"
| reachable_update: "reachable p \<Longrightarrow> update p tr = Inr p' \<Longrightarrow> reachable p'"

text \<open>The same claim applied twice in succession.\<close>

definition ApplyOwnershipClaimTwice ::
  "int \<Rightarrow> int \<Rightarrow> string \<Rightarrow> decoration_set \<Rightarrow> error + decoration_set" where
  "ApplyOwnershipClaimTwice f t ownerId p =
     (case ApplyOwnershipClaim f t ownerId p of
        Inl e \<Rightarrow> Inl e
      | Inr p1 \<Rightarrow> ApplyOwnershipClaim f t ownerId p1)"

section \<open>Evaluation lemmas\<close>

lemma createMark_simps:
  "f < t \<Longrightarrow> createMark f t u = Inr (interval f t u)"
  "t \<le> f \<Longrightarrow> createMark f t u = Inl RangeError"
  by (simp_all add: createMark_def mark_range_def interval_def)

lemma owner_interval [simp]: "owner (interval s e u) = u"
  by (simp add: owner_def interval_def decorationUserId_def authorship_mark_def)

lemma interval_sel [simp]:
  "rfrom (interval s e u) = s" "rto (interval s e u) = e"
  "rvalue (interval s e u) = authorship_mark u"
  by (simp_all add: interval_def)

lemma decorationUserId_authorship_mark [simp]: "decorationUserId (authorship_mark u) = u"
  by (simp add: decorationUserId_def authorship_mark_def)

lemma interval_eq_iff [simp]:
  "interval s e u = interval s' e' u' \<longleftrightarrow> s = s' \<and> e = e' \<and> u = u'"
  by (auto simp: interval_def authorship_mark_def)

lemma ApplyOwnershipClaim_eq:
  "ApplyOwnershipClaim f t u p = apply_effect p \<lparr>ufrom = f, uto = t, userId = u\<rparr>"
  by (simp add: ApplyOwnershipClaim_def update_def split: sum.splits)

section \<open>One effect\<close>

text \<open>
  The callback keeps every range that does not reach the splitting branch; in the
  splitting branch it either adds the three pieces or, when the effect's span is not
  strictly inside the range, fails at one of the three marks.
\<close>

lemma createMark_eq:
  "createMark f t u = (if f < t then Inr (interval f t u) else Inl RangeError)"
  by (simp add: createMark_simps)

lemma authorship_filter_keep:
  "\<not> is_split eff d \<Longrightarrow> in_filter_range eff d \<Longrightarrow> authorship_filter eff added d = Inr (True, added)"
  by (auto simp: is_split_def authorship_filter_def touching_def inOwnText_def same_boundary_def)

lemma authorship_filter_split:
  "is_split eff d \<Longrightarrow> authorship_filter eff added d =
     (if inside eff d then Inr (False, added @ split_pieces eff d) else Inl RangeError)"
  by (auto simp: is_split_def authorship_filter_def touching_def inOwnText_def same_boundary_def
        inside_def split_pieces_def createMark_eq owner_def in_filter_range_def)

text \<open>The filtering update, in closed form.\<close>

lemma rangeset_filter_authorship:
  "rangeset_filter (authorship_filter eff) (ufrom eff) (uto eff) added p =
     (if list_all (\<lambda>d. is_split eff d \<longrightarrow> inside eff d) p
      then Inr (filter (\<lambda>d. \<not> is_split eff d) p,
                added @ concat (map (split_pieces eff) (filter (is_split eff) p)))
      else Inl RangeError)"
proof (induction p arbitrary: added)
  case Nil
  show ?case by simp
next
  case (Cons d ds)
  show ?case
  proof (cases "in_filter_range eff d")
    case False
    then have ns: "\<not> is_split eff d" by (simp add: is_split_def)
    from False have "ufrom eff > rto d \<or> uto eff < rfrom d" by (simp add: in_filter_range_def)
    then show ?thesis using ns Cons.IH [of added] by auto
  next
    case True
    then have r: "\<not> (ufrom eff > rto d \<or> uto eff < rfrom d)" by (simp add: in_filter_range_def)
    show ?thesis
    proof (cases "is_split eff d")
      case False
      then show ?thesis
        using r authorship_filter_keep [OF False True, of added] Cons.IH [of added] by auto
    next
      case sp: True
      show ?thesis
      proof (cases "inside eff d")
        case False
        then show ?thesis using r sp authorship_filter_split [OF sp, of added] by auto
      next
        case ins: True
        then show ?thesis
          using r sp authorship_filter_split [OF sp, of added]
            Cons.IH [of "added @ split_pieces eff d"] by auto
      qed
    qed
  qed
qed

lemma filter_is_split_Nil:
  "filter (is_split eff) p = [] \<Longrightarrow> filter (\<lambda>d. \<not> is_split eff d) p = p"
  by (induction p) (auto split: if_splits)

lemma no_split_filter_Nil:
  "\<forall>d \<in> set p. \<not> is_split eff d \<Longrightarrow> filter (is_split eff) p = []"
  by (induction p) auto

lemma split_pieces_sorted:
  "inside eff d \<Longrightarrow> sorted (map rfrom (split_pieces eff d))"
  by (simp add: inside_def split_pieces_def)

lemma two_splits_unsorted:
  "inside eff d \<Longrightarrow> inside eff e \<Longrightarrow>
     \<not> sorted (map rfrom (split_pieces eff d @ split_pieces eff e @ rest))"
  by (simp add: inside_def split_pieces_def)

lemma split_pieces_not_Nil: "split_pieces eff d \<noteq> []"
  by (simp add: split_pieces_def)

text \<open>
  One effect, in closed form: a failed split raises \<open>RangeError\<close>; without a split the
  mark of the effect is added, if its span is not empty; one split adds its three pieces;
  two or more splits give an array that is not sorted.
\<close>

lemma apply_effect_eq:
  "apply_effect p eff =
     (if \<not> list_all (\<lambda>d. is_split eff d \<longrightarrow> inside eff d) p then Inl RangeError
      else
        (case filter (is_split eff) p of
           [] \<Rightarrow>
             (if ufrom eff < uto eff
              then Inr (insert_range (interval (ufrom eff) (uto eff) (userId eff)) p)
              else Inl RangeError)
         | [d] \<Rightarrow>
             Inr (fold insert_range (split_pieces eff d) (filter (\<lambda>d. \<not> is_split eff d) p))
         | d # e # rest \<Rightarrow> Inl UnsortedRanges))"
proof (cases "list_all (\<lambda>d. is_split eff d \<longrightarrow> inside eff d) p")
  case False
  then show ?thesis
    by (simp add: apply_effect_def filter_decorations_def rangeset_filter_authorship)
next
  case ok: True
  have ins: "inside eff d" if "d \<in> set (filter (is_split eff) p)" for d
    using ok that by (auto simp: list_all_iff)
  show ?thesis
  proof (cases "filter (is_split eff) p")
    case Nil
    then show ?thesis
      using ok filter_is_split_Nil [OF Nil]
      by (simp add: apply_effect_def filter_decorations_def rangeset_filter_authorship
            added_or_effect_def createMark_eq rangeset_add_def)
  next
    case (Cons d ds)
    have d: "inside eff d" using ins [of d] Cons by simp
    show ?thesis
    proof (cases ds)
      case Nil
      then show ?thesis
        using ok Cons d split_pieces_sorted [OF d]
        by (simp add: apply_effect_def filter_decorations_def rangeset_filter_authorship
              added_or_effect_def rangeset_add_def split_pieces_not_Nil)
    next
      case (Cons e rest)
      have e: "inside eff e" using ins [of e] \<open>filter (is_split eff) p = d # ds\<close> Cons by simp
      show ?thesis
        using ok \<open>filter (is_split eff) p = d # ds\<close> Cons
          two_splits_unsorted [OF d e, of "concat (map (split_pieces eff) rest)"]
        by (simp add: apply_effect_def filter_decorations_def rangeset_filter_authorship
              added_or_effect_def rangeset_add_def split_pieces_not_Nil)
    qed
  qed
qed


lemma apply_effect_invalid:
  assumes "uto eff \<le> ufrom eff"
  shows "apply_effect p eff = Inl RangeError"
proof -
  have ni: "\<not> inside eff d" for d using assms by (simp add: inside_def)
  show ?thesis
  proof (cases "filter (is_split eff) p")
    case Nil
    then show ?thesis using assms by (simp add: apply_effect_eq)
  next
    case (Cons d ds)
    then have "d \<in> set (filter (is_split eff) p)" by simp
    then have "d \<in> set p" "is_split eff d" by simp_all
    then have "\<not> list_all (\<lambda>d. is_split eff d \<longrightarrow> inside eff d) p"
      using ni by (auto simp: list_all_iff)
    then show ?thesis by (simp add: apply_effect_eq)
  qed
qed

lemma apply_effect_valid: "apply_effect p eff = Inr p' \<Longrightarrow> ufrom eff < uto eff"
  using apply_effect_invalid [of eff p] by (cases "ufrom eff < uto eff") auto

subsection \<open>The ranges of the result\<close>

lemma set_insert_range: "set (insert_range a rs) = insert a (set rs)"
  by (induction rs) auto

lemma set_fold_insert_range: "set (fold insert_range added rs) = set added \<union> set rs"
  by (induction added arbitrary: rs) (auto simp: set_insert_range)

lemma length_insert_range: "length (insert_range a rs) = Suc (length rs)"
  by (induction rs) auto

lemma touching_not_split: "touching eff d \<Longrightarrow> \<not> is_split eff d"
  by (simp add: is_split_def)

lemma apply_effect_keeps:
  assumes "apply_effect p eff = Inr p'" and "d \<in> set p" and "\<not> is_split eff d"
  shows "d \<in> set p'"
proof (cases "filter (is_split eff) p")
  case Nil
  then show ?thesis
    using assms by (auto simp: apply_effect_eq set_insert_range split: if_splits)
next
  case (Cons e es)
  then show ?thesis
    using assms
    by (cases es) (auto simp: apply_effect_eq set_fold_insert_range split: if_splits)
qed

lemma apply_effect_set:
  assumes "apply_effect p eff = Inr p'" and "x \<in> set p'"
  shows "(x \<in> set p \<and> \<not> is_split eff x)
         \<or> x = interval (ufrom eff) (uto eff) (userId eff)
         \<or> (\<exists>d \<in> set p. is_split eff d \<and> inside eff d \<and> x \<in> set (split_pieces eff d))"
proof (cases "filter (is_split eff) p")
  case Nil
  then have "filter (\<lambda>d. \<not> is_split eff d) p = p" by (rule filter_is_split_Nil)
  then have "\<forall>d \<in> set p. \<not> is_split eff d" by (metis (mono_tags, lifting) filter_id_conv)
  then show ?thesis
    using assms Nil by (auto simp: apply_effect_eq set_insert_range split: if_splits)
next
  case (Cons e es)
  then have "e \<in> set (filter (is_split eff) p)" by simp
  then have e: "e \<in> set p" "is_split eff e" by simp_all
  show ?thesis
  proof (cases es)
    case Nil
    have "list_all (\<lambda>d. is_split eff d \<longrightarrow> inside eff d) p"
      using assms(1) by (auto simp: apply_effect_eq split: if_splits)
    then have "inside eff e" using e by (auto simp: list_all_iff)
    then show ?thesis
      using assms Cons Nil e
      by (auto simp: apply_effect_eq set_fold_insert_range split: if_splits)
  next
    case (Cons e' es')
    then show ?thesis
      using assms \<open>filter (is_split eff) p = e # es\<close>
      by (auto simp: apply_effect_eq split: if_splits)
  qed
qed

lemma split_pieces_not_split:
  assumes "ufrom eff < uto eff" and "x \<in> set (split_pieces eff d)"
  shows "\<not> is_split eff x"
  using assms
  by (auto simp: split_pieces_def is_split_def touching_def inOwnText_def)

lemma effect_interval_not_split:
  "\<not> is_split eff (interval (ufrom eff) (uto eff) (userId eff))"
  by (simp add: is_split_def inOwnText_def)

lemma apply_effect_again:
  assumes "apply_effect p eff = Inr p1"
  shows "apply_effect p1 eff = Inr (insert_range (interval (ufrom eff) (uto eff) (userId eff)) p1)"
proof -
  have v: "ufrom eff < uto eff" using assms by (rule apply_effect_valid)
  have ns: "\<forall>x \<in> set p1. \<not> is_split eff x"
  proof
    fix x assume "x \<in> set p1"
    from apply_effect_set [OF assms this] show "\<not> is_split eff x"
      using split_pieces_not_split [OF v] effect_interval_not_split by blast
  qed
  then have n: "filter (is_split eff) p1 = []" by (rule no_split_filter_Nil)
  have "list_all (\<lambda>d. is_split eff d \<longrightarrow> inside eff d) p1"
    using ns by (simp add: list_all_iff)
  then show ?thesis using n v by (simp add: apply_effect_eq)
qed

subsection \<open>Counting a range in the result\<close>

lemma insert_range_split: "\<exists>ys zs. insert_range a rs = ys @ a # zs \<and> rs = ys @ zs"
proof (induction rs)
  case Nil
  show ?case by simp
next
  case (Cons d ds)
  then obtain ys zs where i: "insert_range a ds = ys @ a # zs" and d: "ds = ys @ zs" by blast
  show ?case
  proof (cases "rfrom a < rfrom d \<or> (rfrom a = rfrom d \<and> rto a < rto d)")
    case True
    then have "insert_range a (d # ds) = [] @ a # (d # ds) \<and> d # ds = [] @ (d # ds)" by simp
    then show ?thesis by blast
  next
    case False
    then have s: "insert_range a (d # ds) = d # insert_range a ds" by auto
    have 1: "insert_range a (d # ds) = (d # ys) @ a # zs" unfolding s i by simp
    have 2: "d # ds = (d # ys) @ zs" unfolding d by simp
    from 1 2 show ?thesis by blast
  qed
qed

lemma count_list_app: "count_list (xs @ ys) x = count_list xs x + count_list ys x"
  by (induction xs) simp_all

lemma count_list_insert_range: "count_list (insert_range a rs) x = count_list (a # rs) x"
proof -
  obtain ys zs where "insert_range a rs = ys @ a # zs" "rs = ys @ zs"
    using insert_range_split by blast
  then show ?thesis by (simp add: count_list_app)
qed



lemma pairwise_disjoint_distinct:
  "pairwise_disjoint p \<Longrightarrow> a \<in> set p \<Longrightarrow> b \<in> set p \<Longrightarrow> a \<noteq> b \<Longrightarrow> \<not> overlaps a b"
proof (induction p)
  case Nil
  then show ?case by simp
next
  case (Cons d ds)
  then show ?case
    by (auto simp: list_all_iff overlaps_def)
qed




lemma repeated_claim_adds_copy:
  assumes "ApplyOwnershipClaim f t ownerId p = Inr p1"
  shows "\<exists>p2. ApplyOwnershipClaim f t ownerId p1 = Inr p2
           \<and> length p2 = length p1 + 1
           \<and> count_list p2 (interval f t ownerId) = count_list p1 (interval f t ownerId) + 1"
proof -
  have "ApplyOwnershipClaim f t ownerId p1 = Inr (insert_range (interval f t ownerId) p1)"
    using assms apply_effect_again [of p "\<lparr>ufrom = f, uto = t, userId = ownerId\<rparr>" p1]
    by (simp add: ApplyOwnershipClaim_eq)
  moreover have "length (insert_range (interval f t ownerId) p1) = length p1 + 1"
    by (simp add: length_insert_range)
  moreover have "count_list (insert_range (interval f t ownerId) p1) (interval f t ownerId)
      = count_list p1 (interval f t ownerId) + 1"
    by (simp add: count_list_insert_range)
  ultimately show ?thesis by blast
qed

subsection \<open>Valid partitions\<close>

lemma valid_partition_distinct:
  assumes "valid_partition p"
  shows "distinct p"
proof -
  have "well_formed p \<Longrightarrow> pairwise_disjoint p \<Longrightarrow> distinct p"
  proof (induction p)
    case Nil
    show ?case by simp
  next
    case (Cons d ds)
    have d: "rfrom d < rto d" using Cons.prems(1) by (simp add: well_formed_def)
    have "\<not> overlaps d e" if "e \<in> set ds" for e
      using Cons.prems(2) that by (simp add: list_all_iff)
    moreover have "overlaps d d" using d by (simp add: overlaps_def)
    ultimately have "d \<notin> set ds" by blast
    moreover have "distinct ds"
      using Cons by (simp add: well_formed_def)
    ultimately show ?case by simp
  qed
  then show ?thesis using assms by (simp add: valid_partition_def)
qed

lemma filter_eq_single:
  "distinct p \<Longrightarrow> d \<in> set p \<Longrightarrow> filter (\<lambda>e. e = d) p = [d]"
proof (induction p)
  case Nil
  then show ?case by simp
next
  case (Cons x xs)
  show ?case
  proof (cases "x = d")
    case True
    then have "d \<notin> set xs" using Cons.prems(1) by simp
    then have "filter (\<lambda>e. e = d) xs = []" by (auto simp: filter_empty_conv)
    then show ?thesis using True by simp
  next
    case False
    then have "d \<in> set xs" using Cons.prems(2) by simp
    then show ?thesis using False Cons by simp
  qed
qed

lemma other_interval_outside:
  assumes "pairwise_disjoint p" and "d \<in> set p" and "inside eff d"
    and "e \<in> set p" and "e \<noteq> d"
  shows "\<not> in_filter_range eff e"
proof -
  have "\<not> overlaps e d"
    using assms(1,4,2,5) by (rule pairwise_disjoint_distinct)
  then show ?thesis
    using assms(3) by (auto simp: overlaps_def inside_def in_filter_range_def)
qed

section \<open>Properties that every update preserves\<close>

text \<open>
  A property of single ranges holds for all ranges of every reachable value when every
  mark with a non-empty span has it and remapping a range to a non-empty span keeps it.
\<close>

lemma chunk_map_eq:
  "chunk_map f p =
     filter (\<lambda>d. rfrom d < rto d)
       (map (\<lambda>d. d\<lparr>rfrom := f (rfrom d) markStartSide, rto := f (rto d) markEndSide\<rparr>) p)"
  by (induction p) auto

lemma chunk_map_list_all:
  assumes "\<And>d s e. Q d \<Longrightarrow> s < e \<Longrightarrow> Q (d\<lparr>rfrom := s, rto := e\<rparr>)" and "list_all Q p"
  shows "list_all Q (chunk_map f p)"
  using assms(2) by (induction p) (auto intro: assms(1))

lemma rangeset_map_list_all:
  assumes "\<And>d s e. Q d \<Longrightarrow> s < e \<Longrightarrow> Q (d\<lparr>rfrom := s, rto := e\<rparr>)" and "list_all Q p"
  shows "list_all Q (rangeset_map ch p)"
  using assms by (cases ch) (simp_all add: chunk_map_list_all)

lemma apply_effect_list_all:
  assumes mark: "\<And>s e u. s < e \<Longrightarrow> Q (interval s e u)"
    and p: "list_all Q p" and ap: "apply_effect p eff = Inr p'"
  shows "list_all Q p'"
proof -
  have v: "ufrom eff < uto eff" using ap by (rule apply_effect_valid)
  have "Q x" if "x \<in> set p'" for x
  proof -
    from apply_effect_set [OF ap that]
    consider "x \<in> set p" | "x = interval (ufrom eff) (uto eff) (userId eff)"
      | d where "inside eff d" "x \<in> set (split_pieces eff d)" by blast
    then show ?thesis
    proof cases
      case 1
      then show ?thesis using p by (simp add: list_all_iff)
    next
      case 2
      then show ?thesis using mark [OF v] by simp
    next
      case 3
      then show ?thesis by (auto simp: split_pieces_def inside_def intro: mark)
    qed
  qed
  then show ?thesis by (simp add: list_all_iff)
qed

lemma apply_effects_list_all:
  assumes "\<And>s e u. s < e \<Longrightarrow> Q (interval s e u)"
    and "list_all Q p" and "apply_effects p effs = Inr p'"
  shows "list_all Q p'"
  using assms(2,3)
proof (induction effs arbitrary: p)
  case Nil
  then show ?case by simp
next
  case (Cons eff effs)
  from Cons.prems(2) obtain p1 where p1: "apply_effect p eff = Inr p1"
    and rest: "apply_effects p1 effs = Inr p'"
    by (auto split: sum.splits)
  have "list_all Q p1" using assms(1) Cons.prems(1) p1 by (rule apply_effect_list_all)
  then show ?case using rest by (rule Cons.IH)
qed

lemma update_list_all:
  assumes mark: "\<And>s e u. s < e \<Longrightarrow> Q (interval s e u)"
    and remap: "\<And>d s e. Q d \<Longrightarrow> s < e \<Longrightarrow> Q (d\<lparr>rfrom := s, rto := e\<rparr>)"
    and p: "list_all Q p" and up: "update p tr = Inr p'"
  shows "list_all Q p'"
proof -
  have m: "list_all Q (rangeset_map (changes tr) p)"
    using remap p by (rule rangeset_map_list_all)
  show ?thesis
  proof (cases "authorship_effects (effects tr) = []")
    case True
    then show ?thesis using up m by (simp add: update_def)
  next
    case False
    then have "apply_effects (rangeset_map (changes tr) p) (authorship_effects (effects tr)) = Inr p'"
      using up by (simp add: update_def)
    with mark m show ?thesis by (rule apply_effects_list_all)
  qed
qed

lemma reachable_list_all:
  assumes mark: "\<And>s e u. s < e \<Longrightarrow> Q (interval s e u)"
    and remap: "\<And>d s e. Q d \<Longrightarrow> s < e \<Longrightarrow> Q (d\<lparr>rfrom := s, rto := e\<rparr>)"
    and "reachable p"
  shows "list_all Q p"
  using assms(3)
proof (induction rule: reachable.induct)
  case reachable_create
  show ?case by (simp add: create_def)
next
  case (reachable_update p tr p')
  from mark remap reachable_update.IH reachable_update.hyps(2) show ?case
    by (rule update_list_all)
qed

lemma update_without_authorship_effects:
  "authorship_effects (effects tr) = [] \<Longrightarrow> update p tr = Inr (rangeset_map (changes tr) p)"
  by (simp add: update_def)

lemma authorshipsUpdateEffect_map_sel:
  "ufrom (authorshipsUpdateEffect_map v change) = mapPos change (ufrom v) (- 1)"
  "uto (authorshipsUpdateEffect_map v change) = mapPos change (uto v) (- 1)"
  "userId (authorshipsUpdateEffect_map v change) = userId v"
  by (simp_all add: authorshipsUpdateEffect_map_def)

lemma claim_step:
  "reachable p \<Longrightarrow> ApplyOwnershipClaim f t u p = Inr p' \<Longrightarrow> reachable p'"
  unfolding ApplyOwnershipClaim_def by (rule reachable_update)

lemma change_step:
  "reachable p \<Longrightarrow> ApplyDocumentChange delta p = Inr p' \<Longrightarrow> reachable p'"
  unfolding ApplyDocumentChange_def by (rule reachable_update)

lemma claim_eval:
  "ApplyOwnershipClaim 0 10 ''alice'' create = Inr [interval 0 10 ''alice'']"
  "ApplyOwnershipClaim 0 5 ''bob'' [interval 0 10 ''alice'']
     = Inr [interval 0 5 ''bob'', interval 0 10 ''alice'']"
  by (simp_all add: ApplyOwnershipClaim_eq apply_effect_def create_def
        filter_decorations_def added_or_effect_def authorship_filter_def createMark_simps
        rangeset_add_def)

lemma authorship_filter_by_user:
  assumes "decorationUserId spec = decorationUserId spec'"
  shows "authorship_filter eff added (d\<lparr>rvalue := spec\<rparr>)
           = authorship_filter eff added (d\<lparr>rvalue := spec'\<rparr>)"
  using assms by (simp add: authorship_filter_def createMark_eq)

text \<open>In every reachable value every range has its start before its end.\<close>

lemma reachable_well_formed:
  "reachable p \<Longrightarrow> well_formed p"
  unfolding well_formed_def by (rule reachable_list_all) simp_all

text \<open>
  The callback on a range that strictly contains the span of the effect: the user id read
  from the attribute decides between keeping and splitting, and the remainders carry it.
\<close>

lemma authorship_filter_inside:
  assumes "rfrom d < ufrom eff \<and> ufrom eff < uto eff \<and> uto eff < rto d"
  shows "authorship_filter eff added d =
          (if decorationUserId (rvalue d) = userId eff then Inr (True, added)
           else Inr (False,
                  added @ [interval (rfrom d) (ufrom eff) (decorationUserId (rvalue d)),
                           interval (ufrom eff) (uto eff) (userId eff),
                           interval (uto eff) (rto d) (decorationUserId (rvalue d))]))"
  using assms by (simp add: authorship_filter_def createMark_eq)

lemma authorship_filter_no_attributes:
  assumes "attributes (rvalue d) = None
        \<and> rfrom d < ufrom eff \<and> ufrom eff < uto eff \<and> uto eff < rto d"
  shows "authorship_filter eff added d =
          (if userId eff = '''' then Inr (True, added)
           else Inr (False,
                  added @ [interval (rfrom d) (ufrom eff) '''',
                           interval (ufrom eff) (uto eff) (userId eff),
                           interval (uto eff) (rto d) '''']))"
proof -
  have u: "decorationUserId (rvalue d) = ''''"
    using assms by (simp add: decorationUserId_def)
  have i: "rfrom d < ufrom eff \<and> ufrom eff < uto eff \<and> uto eff < rto d"
    using assms by simp
  show ?thesis
    unfolding authorship_filter_inside [OF i] u by auto
qed


section \<open>What one claim adds\<close>


section \<open>The scenarios of the specification\<close>

text \<open>
  Scenario 1: a claim on the empty partition. Scenario 3: a claim that touches an interval
  of its own owner. Scenario 5: deleting the positions from 2 to 8 under \<open>[(0,10,alice)]\<close>;
  an interval that lies inside the deleted text disappears.
\<close>

lemma scenario_1:
  "ApplyOwnershipClaim 0 5 ''alice'' create = Inr [interval 0 5 ''alice'']"
  by (simp add: ApplyOwnershipClaim_eq apply_effect_def create_def
        filter_decorations_def added_or_effect_def createMark_simps rangeset_add_def)

lemma scenario_3:
  "ApplyOwnershipClaim 5 10 ''alice'' [interval 0 5 ''alice'']
     = Inr [interval 0 5 ''alice'', interval 5 10 ''alice'']"
  by (simp add: ApplyOwnershipClaim_eq apply_effect_def filter_decorations_def
        added_or_effect_def authorship_filter_def createMark_simps rangeset_add_def)

lemma scenario_5:
  "ApplyDocumentChange (\<lambda>pos assoc. if pos < 2 then pos else if pos < 8 then 2 else pos - 6)
     [interval 0 10 ''alice'', interval 3 6 ''bob''] = Inr [interval 0 4 ''alice'']"
  by (simp add: ApplyDocumentChange_def update_def interval_def)

section \<open>The claims\<close>

subsection \<open>C1: the invariants of the partition\<close>

text \<open>
  C1 (failing input). Two claims with start before end, from the empty partition:
  \<open>(0,10,alice)\<close>, then \<open>(0,5,bob)\<close>. The second shares only its start with the stored
  interval of the other owner; the branch of line 78, commented ``decoration and effect are
  the same'', keeps the interval all the same, and as nothing was split the claim is added
  as well (line 96). The reachable partition \<open>[(0,5,bob), (0,10,alice)]\<close> is not pairwise
  non-overlapping, and position 0 is covered by intervals of two owners.
\<close>

theorem C1_shared_boundary_overlap:
  "ApplyOwnershipClaim 0 10 ''alice'' create = Inr [interval 0 10 ''alice'']
   \<and> ApplyOwnershipClaim 0 5 ''bob'' [interval 0 10 ''alice'']
       = Inr [interval 0 5 ''bob'', interval 0 10 ''alice'']
   \<and> reachable [interval 0 5 ''bob'', interval 0 10 ''alice'']
   \<and> \<not> pairwise_disjoint [interval 0 5 ''bob'', interval 0 10 ''alice'']
   \<and> owners_at [interval 0 5 ''bob'', interval 0 10 ''alice''] 0 = [''bob'', ''alice'']"
proof -
  have "reachable [interval 0 10 ''alice'']"
    using reachable_create claim_eval(1) by (rule claim_step)
  then have "reachable [interval 0 5 ''bob'', interval 0 10 ''alice'']"
    using claim_eval(2) by (rule claim_step)
  then show ?thesis
    by (simp add: claim_eval overlaps_def owners_at_def)
qed

subsection \<open>C2: totality of a claim\<close>

text \<open>
  C2 (failing input). The partition \<open>[(5,10,alice)]\<close> is valid and the claim
  \<open>(3,7,bob)\<close> has its start before its end. The interval reaches the splitting branch,
  which asks for the mark \<open>(5,3,alice)\<close>; its span is inverted, the mark is refused
  with \<open>RangeError\<close> and the update produces no partition.
\<close>

theorem C2_partial_overlap_raises:
  "valid_partition [interval 5 10 ''alice''] \<and> (3::int) < 7
   \<and> createMark 5 3 ''alice'' = Inl RangeError
   \<and> ApplyOwnershipClaim 3 7 ''bob'' [interval 5 10 ''alice''] = Inl RangeError"
  by (simp add: valid_partition_def well_formed_def ApplyOwnershipClaim_eq apply_effect_def
        filter_decorations_def authorship_filter_def createMark_simps)

subsection \<open>C3: the pieces of a split\<close>

text \<open>
  C3 (failing input). The interval \<open>(0,5,alice)\<close> intersects the claim
  \<open>(3,7,bob)\<close>, has another owner, shares no boundary with it and does not merely touch
  it. The splitting branch asks for the right remainder \<open>(7,5,alice)\<close> although
  \<open>7 < 5\<close> does not hold, and the update raises \<open>RangeError\<close> instead of leaving
  the remainder out. In the scenario of the claim, \<open>[(0,10,alice)]\<close> with the claim
  \<open>(3,7,bob)\<close>, the claim lies strictly inside the interval and the three pieces
  result.
\<close>

theorem C3_right_remainder_raises:
  "ApplyOwnershipClaim 3 7 ''bob'' [interval 0 5 ''alice''] = Inl RangeError
   \<and> ApplyOwnershipClaim 3 7 ''bob'' [interval 0 10 ''alice'']
       = Inr [interval 0 3 ''alice'', interval 3 7 ''bob'', interval 7 10 ''alice'']"
  by (simp add: ApplyOwnershipClaim_eq apply_effect_def
        filter_decorations_def added_or_effect_def authorship_filter_def createMark_simps
        rangeset_add_def)

subsection \<open>C4: the same claim twice\<close>

text \<open>
  C4 (failing input). On the empty partition the claim \<open>(0,5,alice)\<close> gives
  \<open>[(0,5,alice)]\<close>. Applied again, the stored interval is own text and is kept (line 72),
  nothing is split, and the check of line 96 adds the mark of the claim once more: the
  partition holds the interval twice, so applying the claim twice does not give what
  applying it once gives.
\<close>

theorem C4_repeated_claim_duplicates:
  "ApplyOwnershipClaim 0 5 ''alice'' create = Inr [interval 0 5 ''alice'']
   \<and> ApplyOwnershipClaim 0 5 ''alice'' [interval 0 5 ''alice'']
       = Inr [interval 0 5 ''alice'', interval 0 5 ''alice'']
   \<and> ApplyOwnershipClaimTwice 0 5 ''alice'' create \<noteq> ApplyOwnershipClaim 0 5 ''alice'' create"
  by (simp add: ApplyOwnershipClaimTwice_def ApplyOwnershipClaim_eq apply_effect_def create_def
        filter_decorations_def added_or_effect_def authorship_filter_def createMark_simps
        rangeset_add_def)

subsection \<open>C5: when the bare claim is inserted\<close>




subsection \<open>C6: an interval that touches the claim\<close>

text \<open>
  C6. An interval that is adjacent to the claim at a single point (its start is the claim's
  end, or its end is the claim's start) is kept by the filter callback, which adds no
  piece for it, whoever its owner is; it is an interval of every partition the claim
  produces.
\<close>

theorem C6_touching_interval_kept:
  assumes "d \<in> set p" and "rfrom d = t \<or> rto d = f"
  shows "authorship_filter \<lparr>ufrom = f, uto = t, userId = ownerId\<rparr> added d = Inr (True, added)
         \<and> (\<forall>p'. ApplyOwnershipClaim f t ownerId p = Inr p' \<longrightarrow> d \<in> set p')"
proof
  show "authorship_filter \<lparr>ufrom = f, uto = t, userId = ownerId\<rparr> added d = Inr (True, added)"
    using assms(2) by (simp add: authorship_filter_def)
next
  have "touching \<lparr>ufrom = f, uto = t, userId = ownerId\<rparr> d"
    using assms(2) by (simp add: touching_def)
  then have "\<not> is_split \<lparr>ufrom = f, uto = t, userId = ownerId\<rparr> d"
    by (rule touching_not_split)
  then show "\<forall>p'. ApplyOwnershipClaim f t ownerId p = Inr p' \<longrightarrow> d \<in> set p'"
    using assms(1) by (auto simp: ApplyOwnershipClaim_eq dest: apply_effect_keeps)
qed

theorem C6_touching_interval_kept_witness:
  "interval 0 5 ''alice'' \<in> set [interval 0 5 ''alice'']
   \<and> rto (interval 0 5 ''alice'') = 5
   \<and> authorship_filter \<lparr>ufrom = 5, uto = 10, userId = ''bob''\<rparr> [] (interval 0 5 ''alice'')
       = Inr (True, [])
   \<and> ApplyOwnershipClaim 5 10 ''bob'' [interval 0 5 ''alice'']
       = Inr [interval 0 5 ''alice'', interval 5 10 ''bob'']
   \<and> interval 0 5 ''alice'' \<in> set [interval 0 5 ''alice'', interval 5 10 ''bob'']"
proof -
  have e: "ApplyOwnershipClaim 5 10 ''bob'' [interval 0 5 ''alice'']
       = Inr [interval 0 5 ''alice'', interval 5 10 ''bob'']"
    by (simp add: ApplyOwnershipClaim_eq apply_effect_def filter_decorations_def
        added_or_effect_def authorship_filter_def createMark_simps rangeset_add_def)
  have m: "interval 0 5 ''alice'' \<in> set [interval 0 5 ''alice'']" by simp
  have b: "rfrom (interval 0 5 ''alice'') = 10 \<or> rto (interval 0 5 ''alice'') = 5" by simp
  from C6_touching_interval_kept [OF m b, of "''bob''" "[]"] e show ?thesis by simp
qed

subsection \<open>C7: both boundaries coincide\<close>

text \<open>
  C7. Starting from the partition \<open>[(0,5,alice)]\<close>, the claim \<open>(0,5,bob)\<close> keeps the
  stored interval (both boundaries coincide, the owner differs; line 78) and, as nothing was
  split, inserts the claim as well (line 96): the result is the overlapping pair
  \<open>[(0,5,alice), (0,5,bob)]\<close>.
\<close>

theorem C7_exact_boundary_overlapping_pair:
  "ApplyOwnershipClaim 0 5 ''bob'' [interval 0 5 ''alice'']
     = Inr [interval 0 5 ''alice'', interval 0 5 ''bob'']"
  by (simp add: ApplyOwnershipClaim_eq apply_effect_def filter_decorations_def
        added_or_effect_def authorship_filter_def createMark_simps rangeset_add_def)

subsection \<open>C8: a claim whose span is empty or inverted\<close>

text \<open>
  C8. A claim whose start is not before its end is rejected, whatever the partition: the
  update raises \<open>RangeError\<close>, so it returns no new partition and nothing derived from
  the claim is stored. The update has no check of its own; every path through it asks for
  the mark of the claim or fails before.
\<close>

theorem C8_invalid_claim_rejected:
  "t \<le> f \<Longrightarrow> ApplyOwnershipClaim f t ownerId p = Inl RangeError"
  by (simp add: ApplyOwnershipClaim_eq apply_effect_invalid)

theorem C8_invalid_claim_rejected_witness:
  "(3::int) \<le> 7 \<and> ApplyOwnershipClaim 7 3 ''bob'' [interval 0 10 ''alice''] = Inl RangeError"
  using C8_invalid_claim_rejected [of 3 7 "''bob''" "[interval 0 10 ''alice'']"] by simp

subsection \<open>C9: a document change\<close>

text \<open>
  C9. A document change maps the start and the end of every stored interval through the
  remapping, each on its own, removes every interval whose mapped start is not before its
  mapped end, and does nothing else: no range is filtered, split or added.
\<close>

theorem C9_document_change_remaps_and_drops:
  "ApplyDocumentChange delta p =
     Inr (filter (\<lambda>d. rfrom d < rto d)
            (map (\<lambda>d. d\<lparr>rfrom := delta (rfrom d) markStartSide,
                         rto := delta (rto d) markEndSide\<rparr>) p))"
  by (simp add: ApplyDocumentChange_def update_def chunk_map_eq)

subsection \<open>C10: the encoding of an interval\<close>

text \<open>
  C10. Every range of a reachable value is a mark of class \<open>authorship-highlight\<close> whose
  attribute \<open>data-user-id\<close> holds its owner, and every update keeps that encoding;
  \<open>createMark\<close> builds such a mark for the user it is given; a mark without attributes is
  read as owned by the empty string; the filter callback depends on the value of a range
  only through the user id read from that attribute; and it acts on that user id: a range
  that strictly contains the span of the claim is kept when the user id read equals the
  user of the claim, and otherwise split into remainders that carry the user id read, so a
  range without the attribute is kept for a claim of the empty user and split, with
  remainders owned by the empty string, for any other.
\<close>

theorem C10_encoding_invariant:
  "(reachable p \<longrightarrow> encoded p)
   \<and> (encoded p \<and> update p tr = Inr p' \<longrightarrow> encoded p')
   \<and> (createMark s e u = Inr m \<longrightarrow>
        cls (rvalue m) = ''authorship-highlight''
        \<and> attributes (rvalue m) = Some [(''data-user-id'', u)] \<and> owner m = u)
   \<and> decorationUserId \<lparr>cls = c, attributes = None\<rparr> = ''''
   \<and> decorationUserId \<lparr>cls = c, attributes = Some [(''data-user-id'', u)]\<rparr> = u
   \<and> (decorationUserId spec = decorationUserId spec' \<longrightarrow>
        authorship_filter eff added (d\<lparr>rvalue := spec\<rparr>)
          = authorship_filter eff added (d\<lparr>rvalue := spec'\<rparr>))
   \<and> (rfrom d < ufrom eff \<and> ufrom eff < uto eff \<and> uto eff < rto d \<longrightarrow>
        authorship_filter eff added d =
          (if decorationUserId (rvalue d) = userId eff then Inr (True, added)
           else Inr (False,
                  added @ [interval (rfrom d) (ufrom eff) (decorationUserId (rvalue d)),
                           interval (ufrom eff) (uto eff) (userId eff),
                           interval (uto eff) (rto d) (decorationUserId (rvalue d))])))
   \<and> (attributes (rvalue d) = None
        \<and> rfrom d < ufrom eff \<and> ufrom eff < uto eff \<and> uto eff < rto d \<longrightarrow>
        authorship_filter eff added d =
          (if userId eff = '''' then Inr (True, added)
           else Inr (False,
                  added @ [interval (rfrom d) (ufrom eff) '''',
                           interval (ufrom eff) (uto eff) (userId eff),
                           interval (uto eff) (rto d) ''''])))"
proof (intro conjI impI)
  assume "reachable p"
  then show "encoded p"
    unfolding encoded_def
    by (rule reachable_list_all [rotated 2]) (simp_all add: authorship_mark_def owner_def decorationUserId_def)
next
  assume "encoded p \<and> update p tr = Inr p'"
  then have e: "encoded p" and u: "update p tr = Inr p'" by simp_all
  show "encoded p'"
    using e u unfolding encoded_def
    by (rule update_list_all [rotated 2]) (simp_all add: authorship_mark_def owner_def decorationUserId_def)
next
  assume "createMark s e u = Inr m"
  then have "m = interval s e u" by (simp add: createMark_eq split: if_splits)
  then show "cls (rvalue m) = ''authorship-highlight''"
    "attributes (rvalue m) = Some [(''data-user-id'', u)]" "owner m = u"
    by (simp_all add: authorship_mark_def)
next
  show "decorationUserId \<lparr>cls = c, attributes = None\<rparr> = ''''"
    by (simp add: decorationUserId_def)
next
  show "decorationUserId \<lparr>cls = c, attributes = Some [(''data-user-id'', u)]\<rparr> = u"
    by (simp add: decorationUserId_def)
next
  assume "decorationUserId spec = decorationUserId spec'"
  then show "authorship_filter eff added (d\<lparr>rvalue := spec\<rparr>)
          = authorship_filter eff added (d\<lparr>rvalue := spec'\<rparr>)"
    by (rule authorship_filter_by_user)
next
  assume "rfrom d < ufrom eff \<and> ufrom eff < uto eff \<and> uto eff < rto d"
  then show "authorship_filter eff added d =
          (if decorationUserId (rvalue d) = userId eff then Inr (True, added)
           else Inr (False,
                  added @ [interval (rfrom d) (ufrom eff) (decorationUserId (rvalue d)),
                           interval (ufrom eff) (uto eff) (userId eff),
                           interval (uto eff) (rto d) (decorationUserId (rvalue d))]))"
    by (rule authorship_filter_inside)
next
  assume "attributes (rvalue d) = None
        \<and> rfrom d < ufrom eff \<and> ufrom eff < uto eff \<and> uto eff < rto d"
  then show "authorship_filter eff added d =
          (if userId eff = '''' then Inr (True, added)
           else Inr (False,
                  added @ [interval (rfrom d) (ufrom eff) '''',
                           interval (ufrom eff) (uto eff) (userId eff),
                           interval (uto eff) (rto d) '''']))"
    by (rule authorship_filter_no_attributes)
qed

theorem C10_encoding_invariant_witness:
  "reachable [interval 0 5 ''alice'']
   \<and> encoded [interval 0 5 ''alice'']
   \<and> update [interval 0 5 ''alice'']
        \<lparr>changes = EmptyChanges,
         effects = [AuthorshipsUpdateEffect \<lparr>ufrom = 5, uto = 10, userId = ''bob''\<rparr>]\<rparr>
       = Inr [interval 0 5 ''alice'', interval 5 10 ''bob'']
   \<and> encoded [interval 0 5 ''alice'', interval 5 10 ''bob'']
   \<and> createMark 0 5 ''alice'' = Inr (interval 0 5 ''alice'')
   \<and> owner (interval 0 5 ''alice'') = ''alice''
   \<and> decorationUserId (authorship_mark ''alice'')
       = decorationUserId \<lparr>cls = '''', attributes = Some [(''data-user-id'', ''alice'')]\<rparr>
   \<and> authorship_filter \<lparr>ufrom = 3, uto = 7, userId = ''bob''\<rparr> []
         ((interval 0 10 ''carol'')\<lparr>rvalue := authorship_mark ''alice''\<rparr>)
       = authorship_filter \<lparr>ufrom = 3, uto = 7, userId = ''bob''\<rparr> []
           ((interval 0 10 ''carol'')
              \<lparr>rvalue := \<lparr>cls = '''', attributes = Some [(''data-user-id'', ''alice'')]\<rparr>\<rparr>)
   \<and> authorship_filter \<lparr>ufrom = 3, uto = 7, userId = ''bob''\<rparr> [] (interval 0 10 ''alice'')
       = Inr (False, [interval 0 3 ''alice'', interval 3 7 ''bob'', interval 7 10 ''alice''])
   \<and> authorship_filter \<lparr>ufrom = 3, uto = 7, userId = ''bob''\<rparr> [] (interval 0 10 ''bob'')
       = Inr (True, [])
   \<and> authorship_filter \<lparr>ufrom = 3, uto = 7, userId = ''bob''\<rparr> []
         \<lparr>rfrom = 0, rto = 10, rvalue = \<lparr>cls = ''authorship-highlight'', attributes = None\<rparr>\<rparr>
       = Inr (False, [interval 0 3 '''', interval 3 7 ''bob'', interval 7 10 ''''])
   \<and> authorship_filter \<lparr>ufrom = 3, uto = 7, userId = ''''\<rparr> []
         \<lparr>rfrom = 0, rto = 10, rvalue = \<lparr>cls = ''authorship-highlight'', attributes = None\<rparr>\<rparr>
       = Inr (True, [])"
proof -
  have c: "ApplyOwnershipClaim 0 5 ''alice'' create = Inr [interval 0 5 ''alice'']"
    by (simp add: ApplyOwnershipClaim_eq apply_effect_def create_def
        filter_decorations_def added_or_effect_def createMark_simps rangeset_add_def)
  have r: "reachable [interval 0 5 ''alice'']"
    using reachable_create c by (rule claim_step)
  have u: "update [interval 0 5 ''alice'']
        \<lparr>changes = EmptyChanges,
         effects = [AuthorshipsUpdateEffect \<lparr>ufrom = 5, uto = 10, userId = ''bob''\<rparr>]\<rparr>
       = Inr [interval 0 5 ''alice'', interval 5 10 ''bob'']"
    by (simp add: update_def apply_effect_def
        filter_decorations_def added_or_effect_def authorship_filter_def createMark_simps
        rangeset_add_def)
  have m: "createMark 0 5 ''alice'' = Inr (interval 0 5 ''alice'')"
    by (simp add: createMark_simps)
  have s: "decorationUserId (authorship_mark ''alice'')
       = decorationUserId \<lparr>cls = '''', attributes = Some [(''data-user-id'', ''alice'')]\<rparr>"
    by (simp add: decorationUserId_def authorship_mark_def)
  have old: "reachable [interval 0 5 ''alice'']
   \<and> encoded [interval 0 5 ''alice'']
   \<and> update [interval 0 5 ''alice'']
        \<lparr>changes = EmptyChanges,
         effects = [AuthorshipsUpdateEffect \<lparr>ufrom = 5, uto = 10, userId = ''bob''\<rparr>]\<rparr>
       = Inr [interval 0 5 ''alice'', interval 5 10 ''bob'']
   \<and> encoded [interval 0 5 ''alice'', interval 5 10 ''bob'']
   \<and> createMark 0 5 ''alice'' = Inr (interval 0 5 ''alice'')
   \<and> owner (interval 0 5 ''alice'') = ''alice''
   \<and> decorationUserId (authorship_mark ''alice'')
       = decorationUserId \<lparr>cls = '''', attributes = Some [(''data-user-id'', ''alice'')]\<rparr>
   \<and> authorship_filter \<lparr>ufrom = 3, uto = 7, userId = ''bob''\<rparr> []
         ((interval 0 10 ''carol'')\<lparr>rvalue := authorship_mark ''alice''\<rparr>)
       = authorship_filter \<lparr>ufrom = 3, uto = 7, userId = ''bob''\<rparr> []
           ((interval 0 10 ''carol'')
              \<lparr>rvalue := \<lparr>cls = '''', attributes = Some [(''data-user-id'', ''alice'')]\<rparr>\<rparr>)"
    using C10_encoding_invariant [of "[interval 0 5 ''alice'']"
      "\<lparr>changes = EmptyChanges,
         effects = [AuthorshipsUpdateEffect \<lparr>ufrom = 5, uto = 10, userId = ''bob''\<rparr>]\<rparr>"
      "[interval 0 5 ''alice'', interval 5 10 ''bob'']" 0 5 "''alice''" "interval 0 5 ''alice''"
      "''''" "authorship_mark ''alice''"
      "\<lparr>cls = '''', attributes = Some [(''data-user-id'', ''alice'')]\<rparr>"
      "\<lparr>ufrom = 3, uto = 7, userId = ''bob''\<rparr>" "[]" "interval 0 10 ''carol''"]
      r u m s
    by simp
  have a: "authorship_filter \<lparr>ufrom = 3, uto = 7, userId = ''bob''\<rparr> [] (interval 0 10 ''alice'')
       = Inr (False, [interval 0 3 ''alice'', interval 3 7 ''bob'', interval 7 10 ''alice''])"
    using C10_encoding_invariant [of "[]" "\<lparr>changes = EmptyChanges, effects = []\<rparr>" "[]" 0 5 "''alice''"
      "interval 0 5 ''alice''" "''''" "authorship_mark ''alice''" "authorship_mark ''alice''"
      "\<lparr>ufrom = 3, uto = 7, userId = ''bob''\<rparr>" "[]" "interval 0 10 ''alice''"]
    by simp
  have b: "authorship_filter \<lparr>ufrom = 3, uto = 7, userId = ''bob''\<rparr> [] (interval 0 10 ''bob'')
       = Inr (True, [])"
    using C10_encoding_invariant [of "[]" "\<lparr>changes = EmptyChanges, effects = []\<rparr>" "[]" 0 5 "''alice''"
      "interval 0 5 ''alice''" "''''" "authorship_mark ''alice''" "authorship_mark ''alice''"
      "\<lparr>ufrom = 3, uto = 7, userId = ''bob''\<rparr>" "[]" "interval 0 10 ''bob''"]
    by simp
  have n1: "authorship_filter \<lparr>ufrom = 3, uto = 7, userId = ''bob''\<rparr> []
         \<lparr>rfrom = 0, rto = 10, rvalue = \<lparr>cls = ''authorship-highlight'', attributes = None\<rparr>\<rparr>
       = Inr (False, [interval 0 3 '''', interval 3 7 ''bob'', interval 7 10 ''''])"
    using C10_encoding_invariant [of "[]" "\<lparr>changes = EmptyChanges, effects = []\<rparr>" "[]" 0 5 "''alice''"
      "interval 0 5 ''alice''" "''''" "authorship_mark ''alice''" "authorship_mark ''alice''"
      "\<lparr>ufrom = 3, uto = 7, userId = ''bob''\<rparr>" "[]"
      "\<lparr>rfrom = 0, rto = 10, rvalue = \<lparr>cls = ''authorship-highlight'', attributes = None\<rparr>\<rparr>"]
    by (simp add: decorationUserId_def)
  have n2: "authorship_filter \<lparr>ufrom = 3, uto = 7, userId = ''''\<rparr> []
         \<lparr>rfrom = 0, rto = 10, rvalue = \<lparr>cls = ''authorship-highlight'', attributes = None\<rparr>\<rparr>
       = Inr (True, [])"
    using C10_encoding_invariant [of "[]" "\<lparr>changes = EmptyChanges, effects = []\<rparr>" "[]" 0 5 "''alice''"
      "interval 0 5 ''alice''" "''''" "authorship_mark ''alice''" "authorship_mark ''alice''"
      "\<lparr>ufrom = 3, uto = 7, userId = ''''\<rparr>" "[]"
      "\<lparr>rfrom = 0, rto = 10, rvalue = \<lparr>cls = ''authorship-highlight'', attributes = None\<rparr>\<rparr>"]
    by (simp add: decorationUserId_def)
  from old a b n1 n2 show ?thesis by blast
qed

subsection \<open>A claim strictly inside an interval of another owner\<close>

text \<open>
  In a valid partition, a claim with a non-empty span that lies strictly inside an interval
  of another owner replaces that interval by its left remainder, the claim and its right
  remainder; every other interval stays.
\<close>

theorem claim_inside_interval_splits:
  assumes "valid_partition p" and "d \<in> set p"
    and "rfrom d < f" and "f < t" and "t < rto d" and "owner d \<noteq> ownerId"
  shows "ApplyOwnershipClaim f t ownerId p =
           Inr (fold insert_range
                  [interval (rfrom d) f (owner d), interval f t ownerId,
                   interval t (rto d) (owner d)]
                  (removeAll d p))"
proof -
  define eff where "eff = \<lparr>ufrom = f, uto = t, userId = ownerId\<rparr>"
  have sel: "ufrom eff = f" "uto eff = t" "userId eff = ownerId" by (simp_all add: eff_def)
  have ins: "inside eff d" using assms(3-5) by (simp add: inside_def sel)
  have spd: "is_split eff d"
    using assms(3-6)
    by (simp add: is_split_def in_filter_range_def touching_def inOwnText_def
          same_boundary_def sel owner_def)
  have disj: "pairwise_disjoint p" using assms(1) by (simp add: valid_partition_def)
  have iff: "is_split eff e \<longleftrightarrow> e = d" if "e \<in> set p" for e
    using other_interval_outside [OF disj assms(2) ins that] spd
    by (auto simp: is_split_def)
  have s1: "filter (is_split eff) p = filter (\<lambda>e. e = d) p"
    by (rule filter_cong) (simp_all add: iff)
  have s: "filter (is_split eff) p = [d]"
    unfolding s1 using valid_partition_distinct [OF assms(1)] assms(2) by (rule filter_eq_single)
  have k1: "filter (\<lambda>e. \<not> is_split eff e) p = filter (\<lambda>e. d \<noteq> e) p"
    by (rule filter_cong) (auto simp: iff)
  have k: "filter (\<lambda>e. \<not> is_split eff e) p = removeAll d p"
    unfolding k1 by (simp only: removeAll_filter_not_eq)
  have ok: "list_all (\<lambda>e. is_split eff e \<longrightarrow> inside eff e) p"
    using iff ins by (auto simp: list_all_iff)
  have "apply_effect p eff = Inr (fold insert_range (split_pieces eff d) (removeAll d p))"
    using ok by (simp add: apply_effect_eq s k)
  then show ?thesis
    by (simp add: ApplyOwnershipClaim_eq eff_def split_pieces_def)
qed

theorem claim_inside_interval_splits_witness:
  "valid_partition [interval 0 10 ''alice'', interval 10 20 ''carol'']
   \<and> interval 0 10 ''alice'' \<in> set [interval 0 10 ''alice'', interval 10 20 ''carol'']
   \<and> (0::int) < 3 \<and> (3::int) < 7 \<and> (7::int) < 10 \<and> ''alice'' \<noteq> ''bob''
   \<and> ApplyOwnershipClaim 3 7 ''bob'' [interval 0 10 ''alice'', interval 10 20 ''carol'']
       = Inr [interval 0 3 ''alice'', interval 3 7 ''bob'', interval 7 10 ''alice'',
              interval 10 20 ''carol'']"
proof -
  have v: "valid_partition [interval 0 10 ''alice'', interval 10 20 ''carol'']"
    by (simp add: valid_partition_def well_formed_def overlaps_def)
  have m: "interval 0 10 ''alice'' \<in> set [interval 0 10 ''alice'', interval 10 20 ''carol'']"
    by simp
  from claim_inside_interval_splits [OF v m, of 3 7 "''bob''"] v show ?thesis by simp
qed

end
